theory Spec2Isabelle
  imports Main
begin

section \<open>Values, errors and the data of the change tracker\<close>

text \<open>
  The tracker of \<^verbatim>\<open>src/index.js\<close> is a JavaScript class. The file holds two revisions
  of it; they differ only in \<^verbatim>\<open>notifySubscribers\<close>, so every other member is embedded
  once. JavaScript values that reach an object key are the instance ids and the fields
  of a record: per the JSDoc they are strings, and they may be absent (\<^verbatim>\<open>undefined\<close>) or
  \<^verbatim>\<open>null\<close>. Model names and subscription ids are strings, as the JSDoc types them.
\<close>

datatype jsval = Undefined | Null | Str string

text \<open>A value used as an object key is converted to a string.\<close>

fun toPropertyKey :: "jsval \<Rightarrow> string" where
  "toPropertyKey Undefined = ''undefined''"
| "toPropertyKey Null = ''null''"
| "toPropertyKey (Str s) = s"

text \<open>
  What a call can throw: the runtime's \<^verbatim>\<open>TypeError\<close> (a property of \<^verbatim>\<open>undefined\<close> is read,
  \<^verbatim>\<open>undefined\<close> is called or iterated) and the \<^verbatim>\<open>new Error(message)\<close> of the source.
\<close>

datatype error = TypeError | Error string

datatype associationType = BelongsTo | BelongsToMany | HasOne | HasMany | OtherAssociation

record association =
  kind :: associationType
  source :: string
  target :: string

record model =
  name :: string
  associations :: "association list"

datatype operation = Create | Update | Delete

definition genericOperations :: "operation list" where
  "genericOperations = [Create, Delete]"

definition specificOperations :: "operation list" where
  "specificOperations = [Update, Delete]"

text \<open>
  An entry of \<^verbatim>\<open>subscriptionsById\<close>: \<^verbatim>\<open>{ modelName, generic: true }\<close> or
  \<^verbatim>\<open>{ modelName, instanceId }\<close>. A property the object lacks reads as \<^verbatim>\<open>undefined\<close>;
  \<open>so_generic\<close> says whether \<^verbatim>\<open>subObj.generic === true\<close>.
\<close>

record subObj =
  so_modelName :: string
  so_generic :: bool
  so_instanceId :: jsval

type_synonym instanceData = "(string \<times> jsval) list"

datatype event =
    SubscriptionsChanged string string jsval bool
  | DataChanged operation string instanceData "string list option" "string list"

text \<open>
  The fields of the object, and the events it has emitted so far (\<^verbatim>\<open>this.emit\<close>), oldest
  first.
\<close>

record tracker =
  modelNames :: "string list"
  dependingModelMap :: "string \<rightharpoonup> string list"
  subscriptionsByResource :: "string \<rightharpoonup> (string \<rightharpoonup> string list)"
  subscriptionsById :: "string \<rightharpoonup> subObj list"
  emitted :: "event list"

definition emit :: "tracker \<Rightarrow> event \<Rightarrow> tracker" where
  "emit t e = t\<lparr>emitted := emitted t @ [e]\<rparr>"

text \<open>\<^verbatim>\<open>instanceData[key]\<close>: the field, \<^verbatim>\<open>undefined\<close> when the record has none.\<close>

definition getProperty :: "instanceData \<Rightarrow> string \<Rightarrow> jsval" where
  "getProperty instanceData key = (case map_of instanceData key of None \<Rightarrow> Undefined | Some v \<Rightarrow> v)"

text \<open>\<^verbatim>\<open>lookup || []\<close> for a lookup that is an array or \<^verbatim>\<open>undefined\<close>.\<close>

definition orEmpty :: "'a list option \<Rightarrow> 'a list" where
  "orEmpty l = (case l of None \<Rightarrow> [] | Some xs \<Rightarrow> xs)"

text \<open>
  The registers are plain objects (\<^verbatim>\<open>{}\<close>, \<^verbatim>\<open>{ generic: [] }\<close>): a map holds their own
  properties, and a key they do not hold is still looked up in \<^verbatim>\<open>Object.prototype\<close>.
  Its members are the twelve below. Eleven are built-in functions and \<^verbatim>\<open>__proto__\<close> reads
  as \<^verbatim>\<open>Object.prototype\<close> itself, so an inherited member is truthy, is no array, has
  none of the array methods and cannot be iterated.
\<close>

definition objectPrototypeKeys :: "string list" where
  "objectPrototypeKeys =
     [''constructor'', ''__defineGetter__'', ''__defineSetter__'', ''hasOwnProperty'',
      ''__lookupGetter__'', ''__lookupSetter__'', ''isPrototypeOf'', ''propertyIsEnumerable'',
      ''toString'', ''valueOf'', ''__proto__'', ''toLocaleString'']"

datatype 'a property = Own 'a | Inherited | Absent

text \<open>\<^verbatim>\<open>object[ key ]\<close>: the own property, else the inherited member, else \<^verbatim>\<open>undefined\<close>.\<close>

definition readProperty :: "(string \<rightharpoonup> 'a) \<Rightarrow> string \<Rightarrow> 'a property" where
  "readProperty object key =
     (case object key of
        Some v \<Rightarrow> Own v
      | None \<Rightarrow> if key \<in> set objectPrototypeKeys then Inherited else Absent)"

text \<open>
  \<^verbatim>\<open>( object[ key ] || [] )\<close> used as an array, by \<^verbatim>\<open>.findIndex( ... )\<close> or by a spread:
  the array the object holds, the empty array for \<^verbatim>\<open>undefined\<close>, and a TypeError for an
  inherited member (\<^verbatim>\<open>findIndex is not a function\<close>, \<^verbatim>\<open>not iterable\<close>).
\<close>

definition arrayOrEmpty :: "'a list property \<Rightarrow> error + 'a list" where
  "arrayOrEmpty p = (case p of Own xs \<Rightarrow> Inr xs | Absent \<Rightarrow> Inr [] | Inherited \<Rightarrow> Inl TypeError)"

text \<open>
  A built-in function has no \<^verbatim>\<open>caller\<close> and no \<^verbatim>\<open>arguments\<close> of its own: reading either
  reaches the accessor of \<^verbatim>\<open>Function.prototype\<close>, which throws a TypeError.
\<close>

definition restrictedFunctionProperties :: "string list" where
  "restrictedFunctionProperties = [''caller'', ''arguments'']"

text \<open>
  Three limits of the embedding. An assignment to the key \<^verbatim>\<open>__proto__\<close> sets the prototype
  of the object instead of a property: the source makes such an assignment only for a
  model named \<^verbatim>\<open>__proto__\<close>, which the embedding treats like any other name. Where the
  source reads \<^verbatim>\<open>this.subscriptionsByResource[ modelName ]\<close> for a model the register does
  not hold, \<^verbatim>\<open>findSubscriptionIndices\<close> and \<^verbatim>\<open>notifySubscribers\<close> are given the TypeError
  of reading a property of \<^verbatim>\<open>undefined\<close>; for a model name that is one of the twelve keys
  the source reads a property of the inherited member instead, which depends on the
  properties of the runtime's built-ins. The theorems below are about models of the
  tracker. The third: a record's data is read at \<^verbatim>\<open>id\<close> and at \<^verbatim>\<open>`${dependingModel}Id`\<close>
  only, neither of them a member of \<^verbatim>\<open>Object.prototype\<close>.
\<close>

section \<open>Array and Set primitives\<close>

text \<open>\<^verbatim>\<open>Array.prototype.findIndex\<close>: the first index whose element passes, or -1.\<close>

fun findIndex :: "('a \<Rightarrow> bool) \<Rightarrow> 'a list \<Rightarrow> int" where
  "findIndex p [] = - 1"
| "findIndex p (x # xs) =
     (if p x then 0 else (let i = findIndex p xs in if i = - 1 then - 1 else i + 1))"

text \<open>
  \<^verbatim>\<open>array.splice(start, 1)\<close>: a negative start counts from the end, a start beyond the
  end removes nothing.
\<close>

definition splice1 :: "int \<Rightarrow> 'a list \<Rightarrow> 'a list" where
  "splice1 start xs =
     (let n = int (length xs);
          s = (if start < 0 then max (n + start) 0 else min start n)
      in take (nat s) xs @ drop (Suc (nat s)) xs)"

text \<open>
  \<^verbatim>\<open>[ ...new Set( xs ) ]\<close>: a Set keeps the first occurrence of each value, in insertion
  order.
\<close>

fun setAdd :: "'a list \<Rightarrow> 'a \<Rightarrow> 'a list" where
  "setAdd s x = (if x \<in> set s then s else s @ [x])"

definition newSet :: "'a list \<Rightarrow> 'a list" where
  "newSet xs = foldl setAdd [] xs"

section \<open>The constructor: the map of depending models\<close>

text \<open>
  \<^verbatim>\<open>const dependingModelList = this.dependingModelMap[ key ]\<close> followed by
  \<^verbatim>\<open>if ( ! dependingModelList.includes( dependentModel )) dependingModelList.push( dependentModel )\<close>.
  The list is the array held by the map, so the push updates the map; a key the map
  lacks gives \<^verbatim>\<open>undefined\<close>, and \<^verbatim>\<open>undefined.includes\<close> throws.
\<close>

definition addDependent ::
  "(string \<rightharpoonup> string list) \<Rightarrow> string \<Rightarrow> string \<Rightarrow> error + (string \<rightharpoonup> string list)" where
  "addDependent dmm key dependentModel =
     (case dmm key of
        None \<Rightarrow> Inl TypeError
      | Some dependingModelList \<Rightarrow>
          if dependentModel \<in> set dependingModelList then Inr dmm
          else Inr (dmm(key \<mapsto> dependingModelList @ [dependentModel])))"

definition registerAssociation ::
  "(string \<rightharpoonup> string list) \<Rightarrow> association \<Rightarrow> error + (string \<rightharpoonup> string list)" where
  "registerAssociation dmm a =
     (if kind a = BelongsTo \<or> kind a = BelongsToMany then addDependent dmm (source a) (target a)
      else if kind a = HasOne \<or> kind a = HasMany then addDependent dmm (target a) (source a)
      else Inr dmm)"

text \<open>\<^verbatim>\<open>for ( let association of Object.values( model.associations ) )\<close>\<close>

fun registerAssociations ::
  "(string \<rightharpoonup> string list) \<Rightarrow> association list \<Rightarrow> error + (string \<rightharpoonup> string list)" where
  "registerAssociations dmm [] = Inr dmm"
| "registerAssociations dmm (a # rest) =
     (case registerAssociation dmm a of
        Inl e \<Rightarrow> Inl e
      | Inr dmm' \<Rightarrow> registerAssociations dmm' rest)"

text \<open>
  \<^verbatim>\<open>for ( let model of models )\<close>: the associations of the model, then its entry
  \<^verbatim>\<open>{ generic: [] }\<close> in \<^verbatim>\<open>subscriptionsByResource\<close>. The hooks the loop installs on the
  model run later, when the record store calls them.
\<close>

fun constructorLoop :: "tracker \<Rightarrow> model list \<Rightarrow> error + tracker" where
  "constructorLoop t [] = Inr t"
| "constructorLoop t (m # rest) =
     (case registerAssociations (dependingModelMap t) (associations m) of
        Inl e \<Rightarrow> Inl e
      | Inr dmm \<Rightarrow>
          constructorLoop
            (t\<lparr>dependingModelMap := dmm,
               subscriptionsByResource :=
                 (subscriptionsByResource t)(name m \<mapsto> [''generic'' \<mapsto> []])\<rparr>)
            rest)"

text \<open>
  \<^verbatim>\<open>this.modelNames = models.map( m => m.name )\<close>, then the \<^verbatim>\<open>reduce\<close> that gives every
  model name an empty list, then the loop. The field initialisers have run before:
  both registers are empty objects.
\<close>

definition constructor :: "model list \<Rightarrow> error + tracker" where
  "constructor models =
     (let names = map name models
      in constructorLoop
           \<lparr>modelNames = names,
            dependingModelMap = fold (\<lambda>model dmm. dmm(model \<mapsto> [])) names Map.empty,
            subscriptionsByResource = Map.empty,
            subscriptionsById = Map.empty,
            emitted = []\<rparr>
           models)"

section \<open>The subscription registers\<close>

definition findSubscriptionIndices ::
  "tracker \<Rightarrow> string \<Rightarrow> string \<Rightarrow> jsval \<Rightarrow> bool \<Rightarrow> error + (int \<times> int)" where
  "findSubscriptionIndices t subscriptionId modelName instanceId generic =
     (case arrayOrEmpty (readProperty (subscriptionsById t) subscriptionId) of
        Inl e \<Rightarrow> Inl e
      | Inr subs \<Rightarrow>
          let sbiIndex =
                findIndex
                  (\<lambda>subObj. so_modelName subObj = modelName \<and>
                     (if generic then so_generic subObj else so_instanceId subObj = instanceId))
                  subs;
              modelProp = (if generic then ''generic'' else toPropertyKey instanceId)
          in case subscriptionsByResource t modelName of
               None \<Rightarrow> Inl TypeError
             | Some resources \<Rightarrow>
                 (case arrayOrEmpty (readProperty resources modelProp) of
                    Inl e \<Rightarrow> Inl e
                  | Inr ids \<Rightarrow> Inr (sbiIndex, findIndex (\<lambda>i. i = subscriptionId) ids)))"

text \<open>
  \<^verbatim>\<open>addSubscription({ modelName, subscriptionId, instanceId })\<close>. The result is what the
  call threw, if anything, and the object as the call left it. Once
  \<^verbatim>\<open>findSubscriptionIndices\<close> has returned, neither \<^verbatim>\<open>this.subscriptionsById[ subscriptionId ]\<close>
  nor the list of the resource is an inherited member, so the two reads that follow
  find the array or \<^verbatim>\<open>undefined\<close>.
\<close>

definition addSubscription ::
  "tracker \<Rightarrow> string \<Rightarrow> string \<Rightarrow> jsval \<Rightarrow> error option \<times> tracker" where
  "addSubscription t modelName subscriptionId instanceId =
     (if modelName \<notin> set (modelNames t) then (Some (Error (''Unknown model: '' @ modelName)), t)
      else
        let generic = (instanceId = Undefined)
        in case findSubscriptionIndices t subscriptionId modelName instanceId generic of
             Inl e \<Rightarrow> (Some e, t)
           | Inr (sbiIndex, sbrIndex) \<Rightarrow>
               if sbiIndex \<noteq> - 1 then (Some (Error ''Already subscribed''), t)
               else
                 let subs = orEmpty (subscriptionsById t subscriptionId)
                 in if generic then
                      (let t1 = t\<lparr>subscriptionsById := (subscriptionsById t)(subscriptionId \<mapsto>
                                     subs @ [\<lparr>so_modelName = modelName, so_generic = True,
                                              so_instanceId = Undefined\<rparr>])\<rparr>
                       in case subscriptionsByResource t1 modelName of
                            None \<Rightarrow> (Some TypeError, t1)
                          | Some resources \<Rightarrow>
                              (case resources ''generic'' of
                                 None \<Rightarrow> (Some TypeError, t1)
                               | Some ids \<Rightarrow>
                                   (None,
                                    emit
                                      (t1\<lparr>subscriptionsByResource := (subscriptionsByResource t1)
                                            (modelName \<mapsto> resources(''generic'' \<mapsto> ids @ [subscriptionId]))\<rparr>)
                                      (SubscriptionsChanged subscriptionId modelName instanceId generic))))
                    else
                      (let t1 = t\<lparr>subscriptionsById := (subscriptionsById t)(subscriptionId \<mapsto>
                                     subs @ [\<lparr>so_modelName = modelName, so_generic = False,
                                              so_instanceId = instanceId\<rparr>])\<rparr>
                       in case subscriptionsByResource t1 modelName of
                            None \<Rightarrow> (Some TypeError, t1)
                          | Some resources \<Rightarrow>
                              (None,
                               emit
                                 (t1\<lparr>subscriptionsByResource := (subscriptionsByResource t1)
                                       (modelName \<mapsto> resources(toPropertyKey instanceId \<mapsto>
                                          orEmpty (resources (toPropertyKey instanceId)) @ [subscriptionId]))\<rparr>)
                                 (SubscriptionsChanged subscriptionId modelName instanceId generic))))"

text \<open>
  \<^verbatim>\<open>removeSubscription\<close> starts with \<^verbatim>\<open>this.findSBIIndex({ ... })\<close>. Its body is embedded
  for whatever \<^verbatim>\<open>this.findSBIIndex\<close> holds: \<open>None\<close> when the object has no such member
  (calling \<^verbatim>\<open>undefined\<close> throws a TypeError), or a lookup function.
\<close>

type_synonym indexLookup =
  "tracker \<Rightarrow> string \<Rightarrow> string \<Rightarrow> jsval \<Rightarrow> bool \<Rightarrow> error + (int \<times> int)"

definition removeSubscription_via ::
  "indexLookup option \<Rightarrow> tracker \<Rightarrow> string \<Rightarrow> string \<Rightarrow> jsval \<Rightarrow> bool \<Rightarrow> error option \<times> tracker" where
  "removeSubscription_via member t subscriptionId modelName instanceId generic =
     (case member of
        None \<Rightarrow> (Some TypeError, t)
      | Some lookup \<Rightarrow>
          (case lookup t subscriptionId modelName instanceId generic of
             Inl e \<Rightarrow> (Some e, t)
           | Inr (sbiIndex, sbrIndex) \<Rightarrow>
               if sbiIndex = - 1 \<or> sbrIndex = - 1 then
                 (Some (Error (''Can't find subscription '' @ subscriptionId @ '' on '' @ modelName
                               @ '' '' @ toPropertyKey instanceId)), t)
               else
                 (case subscriptionsById t subscriptionId of
                    None \<Rightarrow> (Some TypeError, t)
                  | Some subs \<Rightarrow>
                      let t1 = t\<lparr>subscriptionsById :=
                                   (subscriptionsById t)(subscriptionId \<mapsto> splice1 sbiIndex subs)\<rparr>;
                          modelProp = (if generic then ''generic'' else toPropertyKey instanceId)
                      in case subscriptionsByResource t1 modelName of
                           None \<Rightarrow> (Some TypeError, t1)
                         | Some resources \<Rightarrow>
                             (case resources modelProp of
                                None \<Rightarrow> (Some TypeError, t1)
                              | Some ids \<Rightarrow>
                                  (None,
                                   t1\<lparr>subscriptionsByResource := (subscriptionsByResource t1)
                                        (modelName \<mapsto> resources(modelProp \<mapsto> splice1 sbrIndex ids))\<rparr>)))))"

text \<open>
  Neither the class nor \<^verbatim>\<open>EventEmitter\<close>, which it extends, has a member named
  \<^verbatim>\<open>findSBIIndex\<close>: the lookup the class defines is \<^verbatim>\<open>findSubscriptionIndices\<close>.
\<close>

definition findSBIIndex :: "indexLookup option" where
  "findSBIIndex = None"

definition removeSubscription ::
  "tracker \<Rightarrow> string \<Rightarrow> string \<Rightarrow> jsval \<Rightarrow> bool \<Rightarrow> error option \<times> tracker" where
  "removeSubscription = removeSubscription_via findSBIIndex"

text \<open>
  \<^verbatim>\<open>for ( let subObj of this.subscriptionsById[ subscriptionId ] )\<close> iterates the array
  the register holds, not a copy: each step reads the element at the next index of the
  array as the calls before have left it, and the loop ends when the index reaches its
  length. The call made is \<^verbatim>\<open>removeSubscription( { subscriptionId, ...subObj } )\<close>.
\<close>

function removeSubscriptionAllModels_loop ::
  "indexLookup option \<Rightarrow> tracker \<Rightarrow> string \<Rightarrow> nat \<Rightarrow> error option \<times> tracker" where
  "removeSubscriptionAllModels_loop member t subscriptionId i =
     (let subs = orEmpty (subscriptionsById t subscriptionId)
      in if i < length subs then
           (let r = removeSubscription_via member t subscriptionId
                      (so_modelName (subs ! i)) (so_instanceId (subs ! i)) (so_generic (subs ! i))
            in if fst r = None then removeSubscriptionAllModels_loop member (snd r) subscriptionId (Suc i)
               else r)
         else (None, t))"
  by pat_completeness auto
termination
proof (relation "measure (\<lambda>(member, t, subscriptionId, i). length (orEmpty (subscriptionsById t subscriptionId)) - i)")
  show "wf (measure (\<lambda>(member, t, subscriptionId, i). length (orEmpty (subscriptionsById t subscriptionId)) - i))"
    by simp
next
  fix member :: "indexLookup option" and t :: tracker and subscriptionId :: string
    and i :: nat and subs r
  assume subs: "subs = orEmpty (subscriptionsById t subscriptionId)"
    and i: "i < length subs"
    and r: "r = removeSubscription_via member t subscriptionId
                  (so_modelName (subs ! i)) (so_instanceId (subs ! i)) (so_generic (subs ! i))"
    and ok: "fst r = None"
  have shrink: "length (splice1 k xs) \<le> length xs" for k :: int and xs :: "subObj list"
    by (simp add: splice1_def Let_def)
  have "length (orEmpty (subscriptionsById (snd r) subscriptionId)) \<le> length subs"
    using ok shrink unfolding r subs removeSubscription_via_def
    by (auto simp: orEmpty_def Let_def split: option.splits sum.splits prod.splits if_splits)
  then show "((member, snd r, subscriptionId, Suc i), (member, t, subscriptionId, i))
      \<in> measure (\<lambda>(member, t, subscriptionId, i). length (orEmpty (subscriptionsById t subscriptionId)) - i)"
    using i subs by simp
qed

declare removeSubscriptionAllModels_loop.simps [simp del]

definition removeSubscriptionAllModels_via ::
  "indexLookup option \<Rightarrow> tracker \<Rightarrow> string \<Rightarrow> error option \<times> tracker" where
  "removeSubscriptionAllModels_via member t subscriptionId =
     (case subscriptionsById t subscriptionId of
        None \<Rightarrow> (Some TypeError, t)
      | Some subs \<Rightarrow> removeSubscriptionAllModels_loop member t subscriptionId 0)"

definition removeSubscriptionAllModels :: "tracker \<Rightarrow> string \<Rightarrow> error option \<times> tracker" where
  "removeSubscriptionAllModels = removeSubscriptionAllModels_via findSBIIndex"

text \<open>
  The arguments of the hooks. The instance argument is \<^verbatim>\<open>null\<close> (nothing found), one
  instance or an array of them; of an instance the hook reads \<^verbatim>\<open>inst.constructor.name\<close>
  and \<^verbatim>\<open>inst.id\<close>. Of the options it reads \<^verbatim>\<open>options.trackChanges\<close>, absent or an
  object whose \<^verbatim>\<open>subscriptionId\<close> may be missing.
\<close>

record inst =
  constructorName :: string
  inst_id :: jsval

datatype instanceArg = NoInstance | OneInstance inst | InstanceArray "inst list"

text \<open>\<^verbatim>\<open>Array.isArray( instance ) ? instance : [ instance ]\<close>\<close>

fun iterableInstances :: "instanceArg \<Rightarrow> inst list" where
  "iterableInstances NoInstance = []"
| "iterableInstances (OneInstance i) = [i]"
| "iterableInstances (InstanceArray is) = is"

text \<open>
  \<^verbatim>\<open>for ( let inst of iterableInstances ) this.addSubscription({ ... })\<close>: a call that
  throws ends the loop, and what the calls before it registered stays.
\<close>

fun addSubscriptions :: "tracker \<Rightarrow> string \<Rightarrow> inst list \<Rightarrow> error option \<times> tracker" where
  "addSubscriptions t subscriptionId [] = (None, t)"
| "addSubscriptions t subscriptionId (i # rest) =
     (let r = addSubscription t (constructorName i) subscriptionId (inst_id i)
      in if fst r = None then addSubscriptions (snd r) subscriptionId rest else r)"

text \<open>
  \<^verbatim>\<open>addSubscriptionIfRequested( modelName, instance, options )\<close>, the add path of a
  tracked read; \<open>trackChanges\<close> is \<^verbatim>\<open>options.trackChanges\<close>, \<open>None\<close> when absent, else
  its \<^verbatim>\<open>subscriptionId\<close> (\<open>None\<close> when missing; the empty string is falsy too).
\<close>

definition addSubscriptionIfRequested ::
  "tracker \<Rightarrow> string \<Rightarrow> instanceArg \<Rightarrow> string option option \<Rightarrow> error option \<times> tracker" where
  "addSubscriptionIfRequested t modelName instance trackChanges =
     (if instance = NoInstance then (None, t)
      else
        (case trackChanges of
           None \<Rightarrow> (None, t)
         | Some requested \<Rightarrow>
             (case requested of
                None \<Rightarrow> (Some (Error ''Missing subscription id''), t)
              | Some subscriptionId \<Rightarrow>
                  if subscriptionId = [] then (Some (Error ''Missing subscription id''), t)
                  else addSubscriptions t subscriptionId (iterableInstances instance))))"

section \<open>Notification\<close>

text \<open>
  The loop over \<^verbatim>\<open>this.dependingModelMap[ modelName ]\<close> that both revisions share: the
  foreign key is \<^verbatim>\<open>`${dependingModel}Id`\<close>, its value in the record is used as a key of
  the depending model's resources, and a non-empty array found there is pushed onto
  \<^verbatim>\<open>subscriptionIds\<close>. A depending model the register does not hold reads as
  \<^verbatim>\<open>undefined\<close>, whose property cannot be read, unless its name is a member of
  \<^verbatim>\<open>Object.prototype\<close>: a property of that member is read then, no array whatever the
  key. Within the resources an inherited member is no array either.
\<close>

fun cascade :: "tracker \<Rightarrow> instanceData \<Rightarrow> string list \<Rightarrow> string list \<Rightarrow> error + string list" where
  "cascade t instanceData subscriptionIds [] = Inr subscriptionIds"
| "cascade t instanceData subscriptionIds (dependingModel # rest) =
     (let foreignKey = dependingModel @ ''Id'';
          dependingInstanceId = getProperty instanceData foreignKey
      in case readProperty (subscriptionsByResource t) dependingModel of
           Absent \<Rightarrow> Inl TypeError
         | Inherited \<Rightarrow>
             if dependingModel \<noteq> ''__proto__'' \<and>
                toPropertyKey dependingInstanceId \<in> set restrictedFunctionProperties
             then Inl TypeError
             else cascade t instanceData subscriptionIds rest
         | Own resources \<Rightarrow>
             (case resources (toPropertyKey dependingInstanceId) of
                None \<Rightarrow> cascade t instanceData subscriptionIds rest
              | Some dependingInstanceSubscriptions \<Rightarrow>
                  if length dependingInstanceSubscriptions > 0
                  then cascade t instanceData (subscriptionIds @ dependingInstanceSubscriptions) rest
                  else cascade t instanceData subscriptionIds rest))"

text \<open>The end of both revisions: the loop, then the event if the list is not empty.\<close>

definition cascadeAndEmit ::
  "tracker \<Rightarrow> string \<Rightarrow> operation \<Rightarrow> string list option \<Rightarrow> instanceData \<Rightarrow> string list
     \<Rightarrow> error option \<times> tracker" where
  "cascadeAndEmit t modelName operation changedFields instanceData subscriptionIds =
     (case dependingModelMap t modelName of
        None \<Rightarrow> (Some TypeError, t)
      | Some dependingModels \<Rightarrow>
          (case cascade t instanceData subscriptionIds dependingModels of
             Inl e \<Rightarrow> (Some e, t)
           | Inr allIds \<Rightarrow>
               if length allIds > 0
               then (None, emit t (DataChanged operation modelName instanceData changedFields allIds))
               else (None, t)))"

text \<open>\<^verbatim>\<open>[ ...this.subscriptionsByResource[ modelName ].generic ]\<close>, when the operation is generic.\<close>

definition genericSubIds :: "tracker \<Rightarrow> string \<Rightarrow> operation \<Rightarrow> error + string list" where
  "genericSubIds t modelName operation =
     (if operation \<in> set genericOperations then
        (case subscriptionsByResource t modelName of
           None \<Rightarrow> Inl TypeError
         | Some resources \<Rightarrow>
             (case resources ''generic'' of None \<Rightarrow> Inl TypeError | Some ids \<Rightarrow> Inr ids))
      else Inr [])"

text \<open>
  \<^verbatim>\<open>[ ...( this.subscriptionsByResource[ modelName ][ instanceData.id ] || [] ) ]\<close>, when
  the operation is specific: an id that names an inherited member of the resources
  gives a value that cannot be spread.
\<close>

definition specificSubIds :: "tracker \<Rightarrow> string \<Rightarrow> operation \<Rightarrow> instanceData \<Rightarrow> error + string list" where
  "specificSubIds t modelName operation instanceData =
     (if operation \<in> set specificOperations then
        (case subscriptionsByResource t modelName of
           None \<Rightarrow> Inl TypeError
         | Some resources \<Rightarrow>
             arrayOrEmpty (readProperty resources (toPropertyKey (getProperty instanceData ''id''))))
      else Inr [])"

text \<open>\<^verbatim>\<open>notifySubscribers\<close> of the later revision (the second class of the file).\<close>

definition notifySubscribers ::
  "tracker \<Rightarrow> string \<Rightarrow> operation \<Rightarrow> string list option \<Rightarrow> instanceData \<Rightarrow> error option \<times> tracker" where
  "notifySubscribers t modelName operation changedFields instanceData =
     (case genericSubIds t modelName operation of
        Inl e \<Rightarrow> (Some e, t)
      | Inr genericIds \<Rightarrow>
          (case specificSubIds t modelName operation instanceData of
             Inl e \<Rightarrow> (Some e, t)
           | Inr specificIds \<Rightarrow>
               cascadeAndEmit t modelName operation changedFields instanceData
                 (newSet (genericIds @ specificIds))))"

text \<open>
  \<^verbatim>\<open>notifySubscribers\<close> of the earlier revision (the first class of the file): one list,
  the generic one for a generic operation and else the one of the instance, which is
  spread as it is (\<^verbatim>\<open>[ ...undefined ]\<close> throws, and so does the spread of an inherited
  member).
\<close>

definition notifySubscribers_earlier ::
  "tracker \<Rightarrow> string \<Rightarrow> operation \<Rightarrow> string list option \<Rightarrow> instanceData \<Rightarrow> error option \<times> tracker" where
  "notifySubscribers_earlier t modelName operation changedFields instanceData =
     (case subscriptionsByResource t modelName of
        None \<Rightarrow> (Some TypeError, t)
      | Some resources \<Rightarrow>
          (case (if operation \<in> set genericOperations then resources ''generic''
                 else resources (toPropertyKey (getProperty instanceData ''id''))) of
             None \<Rightarrow> (Some TypeError, t)
           | Some subscriptionIds \<Rightarrow>
               cascadeAndEmit t modelName operation changedFields instanceData subscriptionIds))"

section \<open>Vocabulary of the properties\<close>

text \<open>
  The type whose list an association extends (the key of the map the constructor
  reads): the source of a BelongsTo or BelongsToMany, the target of a HasOne or HasMany.
  The type pushed onto that list is the other end.
\<close>

definition mapKey :: "association \<Rightarrow> string option" where
  "mapKey a =
     (if kind a = BelongsTo \<or> kind a = BelongsToMany then Some (source a)
      else if kind a = HasOne \<or> kind a = HasMany then Some (target a)
      else None)"

definition listed :: "association \<Rightarrow> string" where
  "listed a = (if kind a = BelongsTo \<or> kind a = BelongsToMany then target a else source a)"

text \<open>
  Type \<open>C\<close> holds the foreign reference to type \<open>P\<close>: a BelongsTo or BelongsToMany from
  \<open>C\<close> to \<open>P\<close>, or a HasOne or HasMany from \<open>P\<close> to \<open>C\<close>, among the associations of the
  models.
\<close>

definition holdsReference :: "model list \<Rightarrow> string \<Rightarrow> string \<Rightarrow> bool" where
  "holdsReference models C P =
     (\<exists>m \<in> set models. \<exists>a \<in> set (associations m).
        ((kind a = BelongsTo \<or> kind a = BelongsToMany) \<and> source a = C \<and> target a = P) \<or>
        ((kind a = HasOne \<or> kind a = HasMany) \<and> source a = P \<and> target a = C))"

text \<open>
  How the map changes while it is built: the keys stay, every list keeps its elements,
  and a list without repetition stays so.
\<close>

definition extends :: "(string \<rightharpoonup> string list) \<Rightarrow> (string \<rightharpoonup> string list) \<Rightarrow> bool" where
  "extends dmm dmm' \<longleftrightarrow>
     dom dmm' = dom dmm \<and>
     (\<forall>x l. dmm x = Some l \<longrightarrow>
        (\<exists>l'. dmm' x = Some l' \<and> set l \<subseteq> set l' \<and> (distinct l \<longrightarrow> distinct l')))"

text \<open>
  Two models of the test suite, \<^verbatim>\<open>A.hasOne( AHasOne )\<close>, and the tracker constructed from
  them.
\<close>

definition testModels :: "model list" where
  "testModels =
     [\<lparr>name = ''A'', associations = [\<lparr>kind = HasOne, source = ''A'', target = ''AHasOne''\<rparr>]\<rparr>,
      \<lparr>name = ''AHasOne'', associations = []\<rparr>]"

definition testTracker :: tracker where
  "testTracker =
     \<lparr>modelNames = [''A'', ''AHasOne''],
      dependingModelMap = [''A'' \<mapsto> [], ''AHasOne'' \<mapsto> [''A'']],
      subscriptionsByResource =
        [''A'' \<mapsto> [''generic'' \<mapsto> []], ''AHasOne'' \<mapsto> [''generic'' \<mapsto> []]],
      subscriptionsById = Map.empty,
      emitted = []\<rparr>"

text \<open>A model that belongs to a type which is not among the models.\<close>

definition orphanModels :: "model list" where
  "orphanModels =
     [\<lparr>name = ''M'', associations = [\<lparr>kind = BelongsTo, source = ''M'', target = ''U''\<rparr>]\<rparr>]"

text \<open>
  The trackers that can exist: one the constructor has returned, and what the public
  methods, the add path of a tracked read and the notification leave behind, whether
  the call returned or threw.
\<close>

inductive reachable :: "tracker \<Rightarrow> bool" where
  constructed: "constructor models = Inr t \<Longrightarrow> reachable t"
| added: "reachable t \<Longrightarrow> reachable (snd (addSubscription t modelName subscriptionId instanceId))"
| removed: "reachable t \<Longrightarrow>
    reachable (snd (removeSubscription t subscriptionId modelName instanceId generic))"
| removedAll: "reachable t \<Longrightarrow> reachable (snd (removeSubscriptionAllModels t subscriptionId))"
| requested: "reachable t \<Longrightarrow>
    reachable (snd (addSubscriptionIfRequested t modelName instance trackChanges))"
| notified: "reachable t \<Longrightarrow>
    reachable (snd (notifySubscribers t modelName operation changedFields instanceData))"

text \<open>
  The subscription ids registered under a resource key,
  \<^verbatim>\<open>subscriptionsByResource[ modelName ][ key ]\<close>, none when the entry is missing.
\<close>

definition resourceIds :: "tracker \<Rightarrow> string \<Rightarrow> string \<Rightarrow> string list" where
  "resourceIds t modelName key =
     orEmpty (Option.bind (subscriptionsByResource t modelName) (\<lambda>resources. resources key))"


text \<open>
  What holds of every reachable tracker: each known model has its list of depending
  models and its resources with the generic list, and each registered subscription is
  on a known model, is generic exactly when it has no instance id, and has a list of
  its own under the key of its resource.
\<close>

definition registered :: "tracker \<Rightarrow> bool" where
  "registered t \<longleftrightarrow>
     (\<forall>m \<in> set (modelNames t).
        dependingModelMap t m \<noteq> None \<and>
        (\<exists>resources ids. subscriptionsByResource t m = Some resources \<and> resources ''generic'' = Some ids)) \<and>
     (\<forall>subscriptionId subs e. subscriptionsById t subscriptionId = Some subs \<longrightarrow> e \<in> set subs \<longrightarrow>
        so_modelName e \<in> set (modelNames t) \<and> (so_generic e \<longleftrightarrow> so_instanceId e = Undefined) \<and>
        (\<exists>resources ids. subscriptionsByResource t (so_modelName e) = Some resources \<and>
           resources (if so_generic e then ''generic'' else toPropertyKey (so_instanceId e)) = Some ids))"

text \<open>
  The two shapes of an entry of \<^verbatim>\<open>subscriptionsById\<close>, and the agreement of the two
  registers on them: the entry is listed for a subscription id exactly when the id is
  in the list of its resource. The agreement is stated for the instance ids that are
  strings other than \<^verbatim>\<open>'generic'\<close>, the key of the generic list.
\<close>

definition genericEntry :: "string \<Rightarrow> subObj" where
  "genericEntry m = \<lparr>so_modelName = m, so_generic = True, so_instanceId = Undefined\<rparr>"

definition specificEntry :: "string \<Rightarrow> jsval \<Rightarrow> subObj" where
  "specificEntry m i = \<lparr>so_modelName = m, so_generic = False, so_instanceId = i\<rparr>"

definition consistent :: "tracker \<Rightarrow> bool" where
  "consistent t \<longleftrightarrow>
     (\<forall>s m. (genericEntry m \<in> set (orEmpty (subscriptionsById t s))) = (s \<in> set (resourceIds t m ''generic'')) \<and>
        (\<forall>k. k \<noteq> ''generic'' \<longrightarrow>
           (specificEntry m (Str k) \<in> set (orEmpty (subscriptionsById t s))) = (s \<in> set (resourceIds t m k))))"

text \<open>
  The trackers reached when every instance id that is registered is absent or such a
  string.
\<close>

definition plainId :: "jsval \<Rightarrow> bool" where
  "plainId i \<longleftrightarrow> i = Undefined \<or> (\<exists>k. i = Str k \<and> k \<noteq> ''generic'')"

inductive plainlyReachable :: "tracker \<Rightarrow> bool" where
  "constructor models = Inr t \<Longrightarrow> plainlyReachable t"
| "plainlyReachable t \<Longrightarrow> plainId instanceId \<Longrightarrow>
     plainlyReachable (snd (addSubscription t modelName subscriptionId instanceId))"
| "plainlyReachable t \<Longrightarrow>
     plainlyReachable (snd (removeSubscription t subscriptionId modelName instanceId generic))"
| "plainlyReachable t \<Longrightarrow> plainlyReachable (snd (removeSubscriptionAllModels t subscriptionId))"
| "plainlyReachable t \<Longrightarrow> list_all (\<lambda>i. plainId (inst_id i)) (iterableInstances instance) \<Longrightarrow>
     plainlyReachable (snd (addSubscriptionIfRequested t modelName instance trackChanges))"
| "plainlyReachable t \<Longrightarrow>
     plainlyReachable (snd (notifySubscribers t modelName operation changedFields instanceData))"

text \<open>
  Models related in both directions and to themselves: \<^verbatim>\<open>A.hasMany( X )\<close>,
  \<^verbatim>\<open>X.belongsTo( A )\<close> and \<^verbatim>\<open>A.belongsTo( A )\<close>.
\<close>

definition bothWaysModels :: "model list" where
  "bothWaysModels =
     [\<lparr>name = ''A'', associations =
         [\<lparr>kind = HasMany, source = ''A'', target = ''X''\<rparr>,
          \<lparr>kind = BelongsTo, source = ''A'', target = ''A''\<rparr>]\<rparr>,
      \<lparr>name = ''X'', associations = [\<lparr>kind = BelongsTo, source = ''X'', target = ''A''\<rparr>]\<rparr>]"

section \<open>The map of depending models\<close>

lemma registerAssociation_mapKey:
  "registerAssociation dmm a =
     (case mapKey a of None \<Rightarrow> Inr dmm | Some k \<Rightarrow> addDependent dmm k (listed a))"
  by (simp add: registerAssociation_def mapKey_def listed_def)

lemma addDependent_Inl:
  "addDependent dmm k d = Inl e \<longleftrightarrow> dmm k = None \<and> e = TypeError"
  by (auto simp: addDependent_def split: option.splits)

lemma extends_refl: "extends dmm dmm"
  by (simp add: extends_def)

lemma extends_trans: "extends a b \<Longrightarrow> extends b c \<Longrightarrow> extends a c"
  unfolding extends_def by (fastforce)

lemma addDependent_extends:
  assumes "addDependent dmm k d = Inr dmm'"
  shows "extends dmm dmm' \<and> (\<exists>l. dmm' k = Some l \<and> d \<in> set l)"
proof (cases "dmm k")
  case None
  then show ?thesis using assms by (simp add: addDependent_def)
next
  case (Some l)
  show ?thesis
  proof (cases "d \<in> set l")
    case True
    then have "dmm' = dmm" using assms Some by (simp add: addDependent_def)
    then show ?thesis using Some True by (simp add: extends_refl)
  next
    case False
    then have "dmm' = dmm(k \<mapsto> l @ [d])" using assms Some by (simp add: addDependent_def)
    then show ?thesis using Some False by (auto simp: extends_def)
  qed
qed

lemma registerAssociation_extends:
  assumes "registerAssociation dmm a = Inr dmm'"
  shows "extends dmm dmm' \<and> (\<forall>k. mapKey a = Some k \<longrightarrow> (\<exists>l. dmm' k = Some l \<and> listed a \<in> set l))"
  using assms addDependent_extends[of dmm _ "listed a" dmm']
  by (auto simp: registerAssociation_mapKey extends_refl split: option.splits)

lemma registerAssociations_extends:
  assumes "registerAssociations dmm as = Inr dmm'"
  shows "extends dmm dmm' \<and>
         (\<forall>a \<in> set as. \<forall>k. mapKey a = Some k \<longrightarrow> (\<exists>l. dmm' k = Some l \<and> listed a \<in> set l))"
  using assms
proof (induction as arbitrary: dmm)
  case Nil
  then show ?case by (simp add: extends_refl)
next
  case (Cons a as)
  then obtain d1 where a: "registerAssociation dmm a = Inr d1" and r: "registerAssociations d1 as = Inr dmm'"
    by (auto split: sum.splits)
  note A = registerAssociation_extends[OF a] and R = Cons.IH[OF r]
  have e: "extends dmm dmm'" using A R extends_trans by blast
  have "\<exists>l. dmm' k = Some l \<and> listed a \<in> set l" if k: "mapKey a = Some k" for k
  proof -
    obtain l where "d1 k = Some l" "listed a \<in> set l" using A k by blast
    then show ?thesis using R unfolding extends_def by blast
  qed
  then show ?case using e R by auto
qed

lemma registerAssociations_fails:
  "(\<exists>e. registerAssociations dmm as = Inl e) \<longleftrightarrow> (\<exists>a \<in> set as. \<exists>k. mapKey a = Some k \<and> k \<notin> dom dmm)"
proof (induction as arbitrary: dmm)
  case Nil
  then show ?case by simp
next
  case (Cons a as)
  show ?case
  proof (cases "registerAssociation dmm a")
    case (Inl e)
    then show ?thesis
      by (auto simp: registerAssociation_mapKey addDependent_Inl split: option.splits)
  next
    case (Inr d1)
    then have "dom d1 = dom dmm" using registerAssociation_extends[OF Inr] by (simp add: extends_def)
    moreover have "\<not> (\<exists>k. mapKey a = Some k \<and> k \<notin> dom dmm)"
      using Inr by (auto simp: registerAssociation_mapKey addDependent_def split: option.splits)
    ultimately show ?thesis using Inr Cons.IH[of d1] by auto
  qed
qed

lemma registerAssociations_error:
  "registerAssociations dmm as = Inl e \<Longrightarrow> e = TypeError"
  by (induction as arbitrary: dmm)
     (auto simp: registerAssociation_mapKey addDependent_Inl split: sum.splits option.splits)


lemma constructorLoop_registers:
  assumes "constructorLoop t ms = Inr t'"
  shows "modelNames t' = modelNames t \<and> subscriptionsById t' = subscriptionsById t \<and>
         emitted t' = emitted t \<and>
         (\<forall>x. subscriptionsByResource t' x =
                (if x \<in> name ` set ms then Some [''generic'' \<mapsto> []] else subscriptionsByResource t x))"
  using assms
proof (induction ms arbitrary: t)
  case Nil
  then show ?case by simp
next
  case (Cons m ms)
  then obtain dmm where "registerAssociations (dependingModelMap t) (associations m) = Inr dmm"
    and r: "constructorLoop (t\<lparr>dependingModelMap := dmm, subscriptionsByResource :=
              (subscriptionsByResource t)(name m \<mapsto> [''generic'' \<mapsto> []])\<rparr>) ms = Inr t'"
    by (auto split: sum.splits)
  show ?case using Cons.IH[OF r] by auto
qed

lemma constructorLoop_extends:
  assumes "constructorLoop t ms = Inr t'"
  shows "extends (dependingModelMap t) (dependingModelMap t') \<and>
         (\<forall>m \<in> set ms. \<forall>a \<in> set (associations m). \<forall>k. mapKey a = Some k \<longrightarrow>
            (\<exists>l. dependingModelMap t' k = Some l \<and> listed a \<in> set l))"
  using assms
proof (induction ms arbitrary: t)
  case Nil
  then show ?case by (simp add: extends_refl)
next
  case (Cons m ms)
  then obtain dmm where a: "registerAssociations (dependingModelMap t) (associations m) = Inr dmm"
    and r: "constructorLoop (t\<lparr>dependingModelMap := dmm, subscriptionsByResource :=
              (subscriptionsByResource t)(name m \<mapsto> [''generic'' \<mapsto> []])\<rparr>) ms = Inr t'"
    by (auto split: sum.splits)
  note A = registerAssociations_extends[OF a]
  have R: "extends dmm (dependingModelMap t') \<and>
         (\<forall>m \<in> set ms. \<forall>a \<in> set (associations m). \<forall>k. mapKey a = Some k \<longrightarrow>
            (\<exists>l. dependingModelMap t' k = Some l \<and> listed a \<in> set l))"
    using Cons.IH[OF r] by simp
  have e: "extends (dependingModelMap t) (dependingModelMap t')"
    using A R extends_trans by blast
  have "\<exists>l. dependingModelMap t' k = Some l \<and> listed a \<in> set l"
    if a: "a \<in> set (associations m)" and k: "mapKey a = Some k" for a k
  proof -
    obtain l where "dmm k = Some l" "listed a \<in> set l" using A a k by blast
    then show ?thesis using R unfolding extends_def by blast
  qed
  then show ?case using e R by auto
qed

lemma constructorLoop_fails:
  "(\<exists>e. constructorLoop t ms = Inl e) \<longleftrightarrow>
   (\<exists>m \<in> set ms. \<exists>a \<in> set (associations m). \<exists>k. mapKey a = Some k \<and> k \<notin> dom (dependingModelMap t))"
proof (induction ms arbitrary: t)
  case Nil
  then show ?case by simp
next
  case (Cons m ms)
  show ?case
  proof (cases "registerAssociations (dependingModelMap t) (associations m)")
    case (Inl e)
    then have "\<exists>a \<in> set (associations m). \<exists>k. mapKey a = Some k \<and> k \<notin> dom (dependingModelMap t)"
      using registerAssociations_fails[of "dependingModelMap t" "associations m"] by blast
    then show ?thesis using Inl by auto
  next
    case (Inr dmm)
    then have d: "dom dmm = dom (dependingModelMap t)"
      using registerAssociations_extends[OF Inr] by (simp add: extends_def)
    have n: "\<not> (\<exists>a \<in> set (associations m). \<exists>k. mapKey a = Some k \<and> k \<notin> dom (dependingModelMap t))"
      using registerAssociations_fails[of "dependingModelMap t" "associations m"] Inr by auto
    have ih: "(\<exists>e. constructorLoop (t\<lparr>dependingModelMap := dmm, subscriptionsByResource :=
              (subscriptionsByResource t)(name m \<mapsto> [''generic'' \<mapsto> []])\<rparr>) ms = Inl e) \<longleftrightarrow>
          (\<exists>m \<in> set ms. \<exists>a \<in> set (associations m). \<exists>k. mapKey a = Some k \<and> k \<notin> dom (dependingModelMap t))"
      using Cons.IH[of "t\<lparr>dependingModelMap := dmm, subscriptionsByResource :=
              (subscriptionsByResource t)(name m \<mapsto> [''generic'' \<mapsto> []])\<rparr>"] d
      by simp
    have "(\<exists>e. constructorLoop t (m # ms) = Inl e) \<longleftrightarrow>
          (\<exists>m \<in> set ms. \<exists>a \<in> set (associations m). \<exists>k. mapKey a = Some k \<and> k \<notin> dom (dependingModelMap t))"
      using Inr ih by simp
    then show ?thesis using n by (simp del: constructorLoop.simps) blast
  qed
qed

lemma constructorLoop_error:
  "constructorLoop t ms = Inl e \<Longrightarrow> e = TypeError"
  by (induction ms arbitrary: t) (auto split: sum.splits dest: registerAssociations_error)

lemma initial_dependingModelMap:
  "fold (\<lambda>model dmm. dmm(model \<mapsto> [])) names d x = (if x \<in> set names then Some [] else d x)"
  by (induction names arbitrary: d) auto

lemma count_list_distinct:
  "distinct l \<Longrightarrow> x \<in> set l \<Longrightarrow> count_list l x = 1"
  by (induction l) auto

lemma holdsReference_mapKey:
  "holdsReference models C P \<longleftrightarrow>
     (\<exists>m \<in> set models. \<exists>a \<in> set (associations m). mapKey a = Some C \<and> listed a = P)"
  unfolding holdsReference_def mapKey_def listed_def
  by (intro bex_cong refl) (auto split: if_splits)

lemma constructor_testModels: "constructor testModels = Inr testTracker"
  by (simp add: constructor_def testModels_def testTracker_def registerAssociation_def
      addDependent_def)

lemma holdsReference_testModels: "holdsReference testModels ''AHasOne'' ''A''"
  by (simp add: holdsReference_def testModels_def)

text \<open>
  Claim C1, as the code has it. A type \<open>C\<close> that holds the foreign reference to \<open>P\<close> is
  the key, and \<open>P\<close> the element: whenever the constructor returns, the list the map
  holds for \<open>C\<close> contains \<open>P\<close> exactly once, whichever declaration (or several, or a
  self-reference) produced the relation.
\<close>

theorem dependingModelMap_lists_referenced_once:
  assumes "constructor models = Inr t" and "holdsReference models C P"
  shows "\<exists>deps. dependingModelMap t C = Some deps \<and> count_list deps P = 1"
proof -
  define d0 :: "string \<rightharpoonup> string list" where "d0 = fold (\<lambda>model dmm. dmm(model \<mapsto> [])) (map name models) Map.empty"
  define t0 where "t0 = \<lparr>modelNames = map name models, dependingModelMap = d0,
            subscriptionsByResource = Map.empty, subscriptionsById = Map.empty, emitted = []\<rparr>"
  have loop: "constructorLoop t0 models = Inr t"
    using assms(1) by (simp add: constructor_def Let_def t0_def d0_def)
  have d0: "dependingModelMap t0 = d0" by (simp add: t0_def)
  note E = constructorLoop_extends[OF loop, unfolded d0]
  obtain m a where ma: "m \<in> set models" "a \<in> set (associations m)" "mapKey a = Some C" "listed a = P"
    using assms(2) unfolding holdsReference_mapKey by blast
  from E ma obtain l where l: "dependingModelMap t C = Some l" "P \<in> set l"
    by blast
  from E have ext: "extends d0 (dependingModelMap t)" by simp
  from ext l(1) have "C \<in> dom d0" unfolding extends_def by blast
  then have "d0 C = Some []"
    unfolding d0_def initial_dependingModelMap dom_def by (simp split: if_splits)
  with ext obtain l' where "dependingModelMap t C = Some l'" "distinct l'"
    unfolding extends_def by fastforce
  with l have dl: "distinct l" by simp
  have "count_list l P = 1" by (rule count_list_distinct[OF dl l(2)])
  with l(1) show ?thesis by simp
qed

theorem dependingModelMap_lists_referenced_once_witness:
  "\<not> isl (constructor bothWaysModels) \<and>
   holdsReference bothWaysModels ''X'' ''A'' \<and> holdsReference bothWaysModels ''A'' ''A'' \<and>
   (\<exists>deps. dependingModelMap (projr (constructor bothWaysModels)) ''X'' = Some deps \<and>
      count_list deps ''A'' = 1) \<and>
   (\<exists>deps. dependingModelMap (projr (constructor bothWaysModels)) ''A'' = Some deps \<and>
      count_list deps ''A'' = 1)"
proof -
  have c: "\<not> isl (constructor bothWaysModels)"
    by (simp add: constructor_def bothWaysModels_def registerAssociation_def addDependent_def)
  then have r: "constructor bothWaysModels = Inr (projr (constructor bothWaysModels))"
    by (cases "constructor bothWaysModels") simp_all
  have x: "holdsReference bothWaysModels ''X'' ''A''"
    by (simp add: holdsReference_def bothWaysModels_def)
  have s: "holdsReference bothWaysModels ''A'' ''A''"
    by (simp add: holdsReference_def bothWaysModels_def)
  show ?thesis
    using c x s dependingModelMap_lists_referenced_once[OF r x]
      dependingModelMap_lists_referenced_once[OF r s]
    by blast
qed

text \<open>
  The claim as stated puts \<open>C\<close> into the list of \<open>P\<close>. For \<^verbatim>\<open>A.hasOne( AHasOne )\<close> the type
  \<^verbatim>\<open>AHasOne\<close> holds the reference to \<^verbatim>\<open>A\<close>, and the list of \<^verbatim>\<open>A\<close> is empty: it is the list
  of \<^verbatim>\<open>AHasOne\<close> that holds \<^verbatim>\<open>A\<close>, as the test of the map expects.
\<close>

theorem dependingModelMap_direction_counterexample:
  "constructor testModels = Inr testTracker \<and> holdsReference testModels ''AHasOne'' ''A'' \<and>
   dependingModelMap testTracker ''A'' = Some [] \<and>
   dependingModelMap testTracker ''AHasOne'' = Some [''A'']"
  using constructor_testModels holdsReference_testModels by (simp add: testTracker_def)

text \<open>
  Claim C9, as the code has it. The constructor checks no name. It fails exactly when
  the key of some association (\<open>mapKey\<close>) is not the name of a model, because the list
  it reads is then \<^verbatim>\<open>undefined\<close>; the error is the runtime's TypeError. A type on the
  other end is never looked up.
\<close>

theorem constructor_fails_on_unknown_key_only:
  "((\<exists>t. constructor models = Inr t) \<longleftrightarrow>
      (\<forall>m \<in> set models. \<forall>a \<in> set (associations m). \<forall>k. mapKey a = Some k \<longrightarrow> k \<in> name ` set models))
   \<and> (\<forall>e. constructor models = Inl e \<longrightarrow> e = TypeError)"
proof -
  define t0 where "t0 = \<lparr>modelNames = map name models,
            dependingModelMap = fold (\<lambda>model dmm. dmm(model \<mapsto> [])) (map name models) Map.empty,
            subscriptionsByResource = Map.empty,
            subscriptionsById = Map.empty,
            emitted = []\<rparr>"
  have c: "constructor models = constructorLoop t0 models"
    by (simp add: constructor_def Let_def t0_def)
  have d: "dom (dependingModelMap t0) = name ` set models"
    by (auto simp: t0_def initial_dependingModelMap split: if_splits)
  have "(\<exists>t. constructor models = Inr t) \<longleftrightarrow> \<not> (\<exists>e. constructorLoop t0 models = Inl e)"
    unfolding c by (cases "constructorLoop t0 models") auto
  then have "(\<exists>t. constructor models = Inr t) \<longleftrightarrow>
      (\<forall>m \<in> set models. \<forall>a \<in> set (associations m). \<forall>k. mapKey a = Some k \<longrightarrow> k \<in> name ` set models)"
    unfolding constructorLoop_fails d by blast
  moreover have "\<forall>e. constructor models = Inl e \<longrightarrow> e = TypeError"
    unfolding c using constructorLoop_error by blast
  ultimately show ?thesis by blast
qed

theorem constructor_fails_on_unknown_key_only_witness:
  "(\<exists>t. constructor testModels = Inr t) \<and>
   constructor [\<lparr>name = ''M'', associations = [\<lparr>kind = HasMany, source = ''M'', target = ''U''\<rparr>]\<rparr>]
     = Inl TypeError"
proof -
  have "\<forall>m \<in> set testModels. \<forall>a \<in> set (associations m). \<forall>k. mapKey a = Some k \<longrightarrow>
          k \<in> name ` set testModels"
    by (simp add: testModels_def mapKey_def)
  then have "\<exists>t. constructor testModels = Inr t"
    using constructor_fails_on_unknown_key_only[of testModels] by blast
  moreover have "constructor [\<lparr>name = ''M'',
      associations = [\<lparr>kind = HasMany, source = ''M'', target = ''U''\<rparr>]\<rparr>] = Inl TypeError"
    by (simp add: constructor_def registerAssociation_def addDependent_def)
  ultimately show ?thesis by blast
qed

text \<open>
  A BelongsTo whose target is not among the models is accepted, and the map then
  mentions the unknown type.
\<close>

theorem constructor_unknown_target_counterexample:
  "''U'' \<notin> set (map name orphanModels) \<and> \<not> isl (constructor orphanModels) \<and>
   dependingModelMap (projr (constructor orphanModels)) ''M'' = Some [''U'']"
  by (simp add: orphanModels_def constructor_def registerAssociation_def addDependent_def)

section \<open>Reachable trackers\<close>

lemma findIndex_ge: "- 1 \<le> findIndex p xs"
  by (induction xs) (auto simp: Let_def)

lemma findIndex_none: "findIndex p xs = - 1 \<longleftrightarrow> (\<forall>x \<in> set xs. \<not> p x)"
proof (induction xs)
  case Nil
  then show ?case by simp
next
  case (Cons a xs)
  have "findIndex p xs + 1 \<noteq> - 1" using findIndex_ge[of p xs] by arith
  then show ?case using Cons by (auto simp: Let_def)
qed

lemma addSubscription_result:
  assumes "registered t"
  shows "snd (addSubscription t m s i) = t \<or>
         (m \<in> set (modelNames t) \<and>
          (\<exists>resources ev. subscriptionsByResource t m = Some resources \<and>
            snd (addSubscription t m s i) =
              emit (t\<lparr>subscriptionsById := (subscriptionsById t)(s \<mapsto>
                         orEmpty (subscriptionsById t s) @
                           [\<lparr>so_modelName = m, so_generic = (i = Undefined), so_instanceId = i\<rparr>]),
                       subscriptionsByResource := (subscriptionsByResource t)(m \<mapsto>
                         resources((if i = Undefined then ''generic'' else toPropertyKey i) \<mapsto>
                           orEmpty (resources (if i = Undefined then ''generic'' else toPropertyKey i)) @ [s]))\<rparr>) ev))"
proof (cases "m \<in> set (modelNames t)")
  case False
  then show ?thesis by (simp add: addSubscription_def)
next
  case True
  then obtain resources ids where r: "subscriptionsByResource t m = Some resources"
    "resources ''generic'' = Some ids"
    using assms unfolding registered_def by blast
  show ?thesis
  proof (cases "findSubscriptionIndices t s m i (i = Undefined)")
    case (Inl e)
    then show ?thesis using True by (simp add: addSubscription_def)
  next
    case (Inr p)
    then show ?thesis
      using True r
      by (cases p) (auto simp: addSubscription_def Let_def orEmpty_def)
  qed
qed

lemma addSubscription_frame:
  "modelNames (snd (addSubscription t m s i)) = modelNames t \<and>
   dependingModelMap (snd (addSubscription t m s i)) = dependingModelMap t"
  by (auto simp: addSubscription_def Let_def emit_def split: sum.splits prod.splits option.splits)

lemma registered_emit: "registered (emit t e) = registered t"
  by (simp add: registered_def emit_def)

lemma addSubscription_registered:
  assumes "registered t"
  shows "registered (snd (addSubscription t m s i))"
proof -
  define key where "key = (if i = Undefined then ''generic'' else toPropertyKey i)"
  define entry where "entry = \<lparr>so_modelName = m, so_generic = (i = Undefined), so_instanceId = i\<rparr>"
  from addSubscription_result[OF assms, of m s i]
  consider "snd (addSubscription t m s i) = t"
    | resources ev where "m \<in> set (modelNames t)" "subscriptionsByResource t m = Some resources"
        "snd (addSubscription t m s i) =
              emit (t\<lparr>subscriptionsById := (subscriptionsById t)(s \<mapsto>
                         orEmpty (subscriptionsById t s) @ [entry]),
                       subscriptionsByResource := (subscriptionsByResource t)(m \<mapsto>
                         resources(key \<mapsto> orEmpty (resources key) @ [s]))\<rparr>) ev"
    unfolding key_def entry_def by blast
  then show ?thesis
  proof cases
    case 1
    then show ?thesis using assms by simp
  next
    case 2
    define t' where "t' = t\<lparr>subscriptionsById := (subscriptionsById t)(s \<mapsto>
                         orEmpty (subscriptionsById t s) @ [entry]),
                       subscriptionsByResource := (subscriptionsByResource t)(m \<mapsto>
                         resources(key \<mapsto> orEmpty (resources key) @ [s]))\<rparr>"
    have known: "dependingModelMap t x \<noteq> None \<and>
        (\<exists>resources ids. subscriptionsByResource t x = Some resources \<and> resources ''generic'' = Some ids)"
      if "x \<in> set (modelNames t)" for x
      using assms that unfolding registered_def by blast
    have entries: "so_modelName e \<in> set (modelNames t) \<and> (so_generic e \<longleftrightarrow> so_instanceId e = Undefined) \<and>
        (\<exists>resources ids. subscriptionsByResource t (so_modelName e) = Some resources \<and>
           resources (if so_generic e then ''generic'' else toPropertyKey (so_instanceId e)) = Some ids)"
      if "subscriptionsById t subscriptionId = Some subs" "e \<in> set subs" for subscriptionId subs e
      using assms that unfolding registered_def by blast
    have mn: "modelNames t' = modelNames t" by (simp add: t'_def)
    have k1: "dependingModelMap t' x \<noteq> None \<and>
        (\<exists>resources ids. subscriptionsByResource t' x = Some resources \<and> resources ''generic'' = Some ids)"
      if "x \<in> set (modelNames t')" for x
      using known[of x] that 2(2) by (auto simp: t'_def)
    have own: "\<exists>resources ids. subscriptionsByResource t' (so_modelName e) = Some resources \<and>
           resources (if so_generic e then ''generic'' else toPropertyKey (so_instanceId e)) = Some ids"
      if "\<exists>resources ids. subscriptionsByResource t (so_modelName e) = Some resources \<and>
           resources (if so_generic e then ''generic'' else toPropertyKey (so_instanceId e)) = Some ids"
      for e
      using that 2(2) by (auto simp: t'_def)
    have new: "so_modelName entry \<in> set (modelNames t) \<and>
        (so_generic entry \<longleftrightarrow> so_instanceId entry = Undefined) \<and>
        (\<exists>resources ids. subscriptionsByResource t' (so_modelName entry) = Some resources \<and>
           resources (if so_generic entry then ''generic'' else toPropertyKey (so_instanceId entry)) = Some ids)"
      using 2(1) by (simp add: entry_def t'_def key_def)
    have k2: "so_modelName e \<in> set (modelNames t') \<and> (so_generic e \<longleftrightarrow> so_instanceId e = Undefined) \<and>
        (\<exists>resources ids. subscriptionsByResource t' (so_modelName e) = Some resources \<and>
           resources (if so_generic e then ''generic'' else toPropertyKey (so_instanceId e)) = Some ids)"
      if a: "subscriptionsById t' subscriptionId = Some subs" "e \<in> set subs" for subscriptionId subs e
    proof (cases "e = entry")
      case True
      show ?thesis unfolding True mn by (rule new)
    next
      case False
      then obtain subs0 where "subscriptionsById t subscriptionId = Some subs0" "e \<in> set subs0"
        using a by (auto simp: t'_def orEmpty_def split: if_splits option.splits)
      from entries[OF this] own[of e] show ?thesis unfolding mn by blast
    qed
    have "registered t'"
      unfolding registered_def using k1 k2 by blast
    then show ?thesis
      unfolding 2(3) t'_def[symmetric] by (simp add: registered_emit)
  qed
qed

lemma addSubscriptions_registered:
  "registered t \<Longrightarrow> registered (snd (addSubscriptions t s is))"
  by (induction "is" arbitrary: t) (auto simp: Let_def addSubscription_registered)

lemma addSubscriptionIfRequested_registered:
  "registered t \<Longrightarrow> registered (snd (addSubscriptionIfRequested t m i tc))"
  by (auto simp: addSubscriptionIfRequested_def addSubscriptions_registered split: option.splits)

lemma removeSubscription_throws:
  "removeSubscription t subscriptionId modelName instanceId generic = (Some TypeError, t)"
  by (simp add: removeSubscription_def removeSubscription_via_def findSBIIndex_def)

lemma removeSubscriptionAllModels_loop_throws:
  "removeSubscriptionAllModels_loop None t subscriptionId i =
     (if i < length (orEmpty (subscriptionsById t subscriptionId)) then (Some TypeError, t) else (None, t))"
  by (subst removeSubscriptionAllModels_loop.simps) (simp add: removeSubscription_via_def Let_def)

lemma removeSubscriptionAllModels_throws:
  "removeSubscriptionAllModels t subscriptionId =
     (case subscriptionsById t subscriptionId of
        None \<Rightarrow> (Some TypeError, t)
      | Some subs \<Rightarrow> if subs = [] then (None, t) else (Some TypeError, t))"
  by (simp add: removeSubscriptionAllModels_def removeSubscriptionAllModels_via_def findSBIIndex_def
      removeSubscriptionAllModels_loop_throws orEmpty_def split: option.splits)

lemma removeSubscriptionAllModels_unchanged:
  "snd (removeSubscriptionAllModels t subscriptionId) = t"
  by (simp add: removeSubscriptionAllModels_throws split: option.splits)

lemma cascadeAndEmit_frame:
  "snd (cascadeAndEmit t m operation cf d ids) = t \<or>
   (\<exists>e. snd (cascadeAndEmit t m operation cf d ids) = emit t e)"
  by (auto simp: cascadeAndEmit_def split: option.splits sum.splits)

lemma notifySubscribers_frame:
  "snd (notifySubscribers t m operation cf d) = t \<or>
   (\<exists>e. snd (notifySubscribers t m operation cf d) = emit t e)"
  using cascadeAndEmit_frame
  by (auto simp: notifySubscribers_def split: sum.splits)

lemma notifySubscribers_registered:
  "registered t \<Longrightarrow> registered (snd (notifySubscribers t m operation cf d))"
  using notifySubscribers_frame[of t m operation cf d] by (auto simp: registered_emit)

lemma constructor_registered:
  assumes "constructor models = Inr t"
  shows "registered t"
proof -
  define d0 :: "string \<rightharpoonup> string list"
    where "d0 = fold (\<lambda>model dmm. dmm(model \<mapsto> [])) (map name models) Map.empty"
  define t0 where "t0 = \<lparr>modelNames = map name models, dependingModelMap = d0,
            subscriptionsByResource = Map.empty, subscriptionsById = Map.empty, emitted = []\<rparr>"
  have loop: "constructorLoop t0 models = Inr t"
    using assms by (simp add: constructor_def Let_def t0_def d0_def)
  note R = constructorLoop_registers[OF loop]
  have names: "modelNames t = map name models" using R by (simp add: t0_def)
  have byId: "subscriptionsById t = Map.empty" using R by (simp add: t0_def)
  have ext: "extends d0 (dependingModelMap t)"
    using constructorLoop_extends[OF loop] by (simp add: t0_def)
  have "dom d0 = name ` set models"
    by (auto simp: d0_def initial_dependingModelMap split: if_splits)
  then have dom: "dom (dependingModelMap t) = name ` set models"
    using ext by (simp add: extends_def)
  show ?thesis
    unfolding registered_def names byId using R dom by auto
qed

lemma reachable_registered: "reachable t \<Longrightarrow> registered t"
  by (induction rule: reachable.induct)
     (simp_all add: constructor_registered addSubscription_registered removeSubscription_throws
        removeSubscriptionAllModels_unchanged addSubscriptionIfRequested_registered
        notifySubscribers_registered)

lemma reachable_testTracker: "reachable testTracker"
  by (rule reachable.constructed[OF constructor_testModels])

lemmas run_defs = addSubscription_def findSubscriptionIndices_def testTracker_def orEmpty_def
  emit_def notifySubscribers_def notifySubscribers_earlier_def genericSubIds_def specificSubIds_def
  cascadeAndEmit_def getProperty_def genericOperations_def specificOperations_def newSet_def
  readProperty_def arrayOrEmpty_def objectPrototypeKeys_def restrictedFunctionProperties_def

lemma genericSubscriber_added:
  "addSubscription testTracker ''A'' ''s'' Undefined =
     (None, testTracker\<lparr>
        subscriptionsByResource :=
          [''AHasOne'' \<mapsto> [''generic'' \<mapsto> []], ''A'' \<mapsto> [''generic'' \<mapsto> [''s'']]],
        subscriptionsById :=
          [''s'' \<mapsto> [\<lparr>so_modelName = ''A'', so_generic = True, so_instanceId = Undefined\<rparr>]],
        emitted := [SubscriptionsChanged ''s'' ''A'' Undefined True]\<rparr>)"
  by (simp add: run_defs)

section \<open>The registry: duplicate subscriptions\<close>

text \<open>
  Claim C7. In a reachable tracker that holds a subscription of \<open>subscriptionId\<close> on
  \<open>modelName\<close> with the same instance id (none for a generic subscription), adding it
  again throws \<^verbatim>\<open>Error( 'Already subscribed' )\<close>, the error the code has for a
  duplicate, and leaves the tracker as it was: both registers, and the emitted events,
  so no \<^verbatim>\<open>subscriptions-changed\<close> is emitted.
\<close>

theorem addSubscription_duplicate_rejected:
  assumes "reachable t"
    and "subscriptionsById t subscriptionId = Some subs"
    and "e \<in> set subs"
    and "so_modelName e = modelName"
    and "so_instanceId e = instanceId"
  shows "addSubscription t modelName subscriptionId instanceId = (Some (Error ''Already subscribed''), t)"
proof -
  have reg: "registered t" using assms(1) by (rule reachable_registered)
  have known: "modelName \<in> set (modelNames t)"
    and kind: "so_generic e \<longleftrightarrow> instanceId = Undefined"
    using reg assms(2-5) unfolding registered_def by blast+
  have "\<exists>resources ids. subscriptionsByResource t (so_modelName e) = Some resources \<and>
      resources (if so_generic e then ''generic'' else toPropertyKey (so_instanceId e)) = Some ids"
    using reg assms(2,3) unfolding registered_def by blast
  then obtain resources ids where res: "subscriptionsByResource t modelName = Some resources"
    and own: "resources (if instanceId = Undefined then ''generic'' else toPropertyKey instanceId) = Some ids"
    unfolding assms(4,5) kind by blast
  have byId: "arrayOrEmpty (readProperty (subscriptionsById t) subscriptionId) = Inr subs"
    using assms(2) by (simp add: arrayOrEmpty_def readProperty_def)
  have byRes: "arrayOrEmpty (readProperty resources
      (if instanceId = Undefined then ''generic'' else toPropertyKey instanceId)) = Inr ids"
    using own by (simp add: arrayOrEmpty_def readProperty_def)
  have "findIndex
          (\<lambda>subObj. so_modelName subObj = modelName \<and>
             (if instanceId = Undefined then so_generic subObj else so_instanceId subObj = instanceId))
          subs \<noteq> - 1"
    unfolding findIndex_none using assms(3-5) kind by auto
  then show ?thesis
    using known res byId byRes by (simp add: addSubscription_def findSubscriptionIndices_def Let_def)
qed

theorem addSubscription_duplicate_rejected_witness:
  "reachable (snd (addSubscription testTracker ''A'' ''s'' Undefined)) \<and>
   subscriptionsById (snd (addSubscription testTracker ''A'' ''s'' Undefined)) ''s'' =
     Some [\<lparr>so_modelName = ''A'', so_generic = True, so_instanceId = Undefined\<rparr>] \<and>
   addSubscription (snd (addSubscription testTracker ''A'' ''s'' Undefined)) ''A'' ''s'' Undefined =
     (Some (Error ''Already subscribed''), snd (addSubscription testTracker ''A'' ''s'' Undefined))"
proof -
  let ?t = "snd (addSubscription testTracker ''A'' ''s'' Undefined)"
  let ?e = "\<lparr>so_modelName = ''A'', so_generic = True, so_instanceId = Undefined\<rparr>"
  have r: "reachable ?t" by (rule reachable.added[OF reachable_testTracker])
  have s: "subscriptionsById ?t ''s'' = Some [?e]" by (simp add: genericSubscriber_added)
  have "addSubscription ?t ''A'' ''s'' Undefined = (Some (Error ''Already subscribed''), ?t)"
    by (rule addSubscription_duplicate_rejected[OF r s, of ?e]) simp_all
  with r s show ?thesis by blast
qed

section \<open>Notification: errors\<close>








section \<open>Notification: the two revisions\<close>

lemma foldl_setAdd_known: "set xs \<subseteq> set acc \<Longrightarrow> foldl setAdd acc xs = acc"
  by (induction xs arbitrary: acc) auto

lemma foldl_setAdd_fresh: "distinct (acc @ xs) \<Longrightarrow> foldl setAdd acc xs = acc @ xs"
  by (induction xs arbitrary: acc) auto

lemma newSet_distinct: "distinct xs \<Longrightarrow> newSet xs = xs"
  using foldl_setAdd_fresh[of "[]" xs] by (simp add: newSet_def)

lemma newSet_absorbs: "distinct xs \<Longrightarrow> set ys \<subseteq> set xs \<Longrightarrow> newSet (xs @ ys) = xs"
  using foldl_setAdd_fresh[of "[]" xs] foldl_setAdd_known[of ys xs] by (simp add: newSet_def)

text \<open>
  Claim C10, as the code has it. The revisions differ by design: the later one adds the
  subscribers of the instance to a delete, removes repeated ids from the direct list,
  and reads a missing list as empty. They agree, in what they throw and in the event
  they emit, for a known model when the direct lists hold no id twice and: on a create,
  always; on an update, when a list is registered under the id of the record; on a
  delete, when every subscriber of the instance is a generic subscriber too and the id
  of the record does not read an inherited member of the resources, which the later
  revision alone would spread.
\<close>

theorem notifySubscribers_revisions_agree:
  assumes "subscriptionsByResource t modelName = Some resources"
    and "operation = Create \<Longrightarrow> distinct (orEmpty (resources ''generic''))"
    and "operation = Update \<Longrightarrow>
           (\<exists>ids. resources (toPropertyKey (getProperty instanceData ''id'')) = Some ids \<and> distinct ids)"
    and "operation = Delete \<Longrightarrow>
           distinct (orEmpty (resources ''generic'')) \<and>
           readProperty resources (toPropertyKey (getProperty instanceData ''id'')) \<noteq> Inherited \<and>
           set (orEmpty (resources (toPropertyKey (getProperty instanceData ''id''))))
             \<subseteq> set (orEmpty (resources ''generic''))"
  shows "notifySubscribers_earlier t modelName operation changedFields instanceData =
         notifySubscribers t modelName operation changedFields instanceData"
proof (cases operation)
  case Create
  show ?thesis
  proof (cases "resources ''generic''")
    case None
    then show ?thesis using Create assms(1)
      by (simp add: notifySubscribers_earlier_def notifySubscribers_def genericSubIds_def
          genericOperations_def)
  next
    case (Some ids)
    then have "newSet ids = ids" using assms(2) Create by (simp add: orEmpty_def newSet_distinct)
    then show ?thesis using Create assms(1) Some
      by (simp add: notifySubscribers_earlier_def notifySubscribers_def genericSubIds_def
          specificSubIds_def genericOperations_def specificOperations_def)
  qed
next
  case Update
  then obtain ids where ids: "resources (toPropertyKey (getProperty instanceData ''id'')) = Some ids"
    "distinct ids" using assms(3) by blast
  then have "newSet ids = ids" by (simp add: newSet_distinct)
  then show ?thesis using Update assms(1) ids
    by (simp add: notifySubscribers_earlier_def notifySubscribers_def genericSubIds_def
          specificSubIds_def genericOperations_def specificOperations_def arrayOrEmpty_def
          readProperty_def)
next
  case Delete
  show ?thesis
  proof (cases "resources ''generic''")
    case None
    then show ?thesis using Delete assms(1)
      by (simp add: notifySubscribers_earlier_def notifySubscribers_def genericSubIds_def
          genericOperations_def)
  next
    case (Some ids)
    then have "newSet (ids @ orEmpty (resources (toPropertyKey (getProperty instanceData ''id'')))) = ids"
      using assms(4) Delete by (simp add: orEmpty_def newSet_absorbs)
    moreover have "arrayOrEmpty (readProperty resources (toPropertyKey (getProperty instanceData ''id''))) =
        Inr (orEmpty (resources (toPropertyKey (getProperty instanceData ''id''))))"
      using assms(4) Delete
      by (auto simp: arrayOrEmpty_def readProperty_def orEmpty_def split: option.splits if_splits)
    ultimately show ?thesis using Delete assms(1) Some
      by (simp add: notifySubscribers_earlier_def notifySubscribers_def genericSubIds_def
          specificSubIds_def genericOperations_def specificOperations_def)
  qed
qed

theorem notifySubscribers_revisions_agree_witness:
  "notifySubscribers_earlier (snd (addSubscription testTracker ''A'' ''s'' Undefined))
     ''A'' Create None [(''id'', Str ''a1'')] =
   notifySubscribers (snd (addSubscription testTracker ''A'' ''s'' Undefined))
     ''A'' Create None [(''id'', Str ''a1'')] \<and>
   notifySubscribers_earlier (snd (addSubscription testTracker ''A'' ''s'' (Str ''a1'')))
     ''A'' Update None [(''id'', Str ''a1'')] =
   notifySubscribers (snd (addSubscription testTracker ''A'' ''s'' (Str ''a1'')))
     ''A'' Update None [(''id'', Str ''a1'')] \<and>
   notifySubscribers_earlier
     (snd (addSubscription (snd (addSubscription testTracker ''A'' ''s'' Undefined)) ''A'' ''s'' (Str ''a1'')))
     ''A'' Delete None [(''id'', Str ''a1'')] =
   notifySubscribers
     (snd (addSubscription (snd (addSubscription testTracker ''A'' ''s'' Undefined)) ''A'' ''s'' (Str ''a1'')))
     ''A'' Delete None [(''id'', Str ''a1'')] \<and>
   emitted (snd (notifySubscribers
     (snd (addSubscription (snd (addSubscription testTracker ''A'' ''s'' Undefined)) ''A'' ''s'' (Str ''a1'')))
     ''A'' Delete None [(''id'', Str ''a1'')])) =
     [SubscriptionsChanged ''s'' ''A'' Undefined True,
      SubscriptionsChanged ''s'' ''A'' (Str ''a1'') False,
      DataChanged Delete ''A'' [(''id'', Str ''a1'')] None [''s'']]"
proof -
  let ?d = "[(''id'', Str ''a1'')]"
  let ?g = "snd (addSubscription testTracker ''A'' ''s'' Undefined)"
  let ?s = "snd (addSubscription testTracker ''A'' ''s'' (Str ''a1''))"
  let ?b = "snd (addSubscription ?g ''A'' ''s'' (Str ''a1''))"
  have "notifySubscribers_earlier ?g ''A'' Create None ?d = notifySubscribers ?g ''A'' Create None ?d"
    by (rule notifySubscribers_revisions_agree[of _ _ "[''generic'' \<mapsto> [''s'']]"])
       (simp_all add: genericSubscriber_added orEmpty_def)
  moreover have "notifySubscribers_earlier ?s ''A'' Update None ?d = notifySubscribers ?s ''A'' Update None ?d"
    by (rule notifySubscribers_revisions_agree[of _ _ "[''generic'' \<mapsto> [], ''a1'' \<mapsto> [''s'']]"])
       (simp_all add: run_defs)
  moreover have "notifySubscribers_earlier ?b ''A'' Delete None ?d = notifySubscribers ?b ''A'' Delete None ?d"
    by (rule notifySubscribers_revisions_agree[of _ _ "[''generic'' \<mapsto> [''s''], ''a1'' \<mapsto> [''s'']]"])
       (simp_all add: run_defs)
  moreover have "emitted (snd (notifySubscribers ?b ''A'' Delete None ?d)) =
     [SubscriptionsChanged ''s'' ''A'' Undefined True,
      SubscriptionsChanged ''s'' ''A'' (Str ''a1'') False,
      DataChanged Delete ''A'' [(''id'', Str ''a1'')] None [''s'']]"
    by (simp add: run_defs)
  ultimately show ?thesis by blast
qed

text \<open>
  Where they differ. An update of a record nobody has subscribed to: the earlier
  revision throws, the later returns. A delete of a record with a subscriber of the
  instance only: the earlier revision emits nothing, the later notifies the subscriber.
  A delete of the record with the id \<^verbatim>\<open>'constructor'\<close> while \<^verbatim>\<open>s\<close> is a generic
  subscriber: the earlier revision notifies \<^verbatim>\<open>s\<close>, the later throws.
\<close>

theorem notifySubscribers_revisions_differ_counterexample:
  "fst (notifySubscribers_earlier testTracker ''A'' Update None [(''id'', Str ''a1'')]) = Some TypeError \<and>
   fst (notifySubscribers testTracker ''A'' Update None [(''id'', Str ''a1'')]) = None \<and>
   emitted (snd (notifySubscribers_earlier (snd (addSubscription testTracker ''A'' ''s'' (Str ''a1'')))
     ''A'' Delete None [(''id'', Str ''a1'')])) =
     [SubscriptionsChanged ''s'' ''A'' (Str ''a1'') False] \<and>
   emitted (snd (notifySubscribers (snd (addSubscription testTracker ''A'' ''s'' (Str ''a1'')))
     ''A'' Delete None [(''id'', Str ''a1'')])) =
     [SubscriptionsChanged ''s'' ''A'' (Str ''a1'') False,
      DataChanged Delete ''A'' [(''id'', Str ''a1'')] None [''s'']] \<and>
   emitted (snd (notifySubscribers_earlier (snd (addSubscription testTracker ''A'' ''s'' Undefined))
     ''A'' Delete None [(''id'', Str ''constructor'')])) =
     [SubscriptionsChanged ''s'' ''A'' Undefined True,
      DataChanged Delete ''A'' [(''id'', Str ''constructor'')] None [''s'']] \<and>
   notifySubscribers (snd (addSubscription testTracker ''A'' ''s'' Undefined))
     ''A'' Delete None [(''id'', Str ''constructor'')] =
     (Some TypeError, snd (addSubscription testTracker ''A'' ''s'' Undefined))"
  by (simp add: run_defs)

section \<open>Removal\<close>

text \<open>
  Claim C2 says that a subscription just added can be removed again, restoring both
  registers. The removal never gets that far: \<^verbatim>\<open>removeSubscription\<close> calls
  \<^verbatim>\<open>this.findSBIIndex\<close>, which does not exist, so after a successful add the call with the
  same tuple throws a TypeError and the subscription stays registered.
\<close>

theorem add_then_remove_throws:
  "fst (addSubscription testTracker ''A'' ''s'' Undefined) = None \<and>
   removeSubscription (snd (addSubscription testTracker ''A'' ''s'' Undefined)) ''s'' ''A'' Undefined True =
     (Some TypeError, snd (addSubscription testTracker ''A'' ''s'' Undefined)) \<and>
   subscriptionsById (snd (addSubscription testTracker ''A'' ''s'' Undefined)) ''s'' =
     Some [\<lparr>so_modelName = ''A'', so_generic = True, so_instanceId = Undefined\<rparr>] \<and>
   resourceIds (snd (addSubscription testTracker ''A'' ''s'' Undefined)) ''A'' ''generic'' = [''s'']"
  by (simp add: removeSubscription_throws genericSubscriber_added resourceIds_def orEmpty_def)

text \<open>
  Claim C5 says that \<^verbatim>\<open>removeSubscriptionAllModels\<close> removes every subscription of the
  id. With one subscription registered, its first call of \<^verbatim>\<open>removeSubscription\<close> throws
  the TypeError above and nothing is removed.
\<close>

theorem removeSubscriptionAllModels_removes_nothing:
  "subscriptionsById (snd (addSubscription testTracker ''A'' ''s'' Undefined)) ''s'' =
     Some [\<lparr>so_modelName = ''A'', so_generic = True, so_instanceId = Undefined\<rparr>] \<and>
   removeSubscriptionAllModels (snd (addSubscription testTracker ''A'' ''s'' Undefined)) ''s'' =
     (Some TypeError, snd (addSubscription testTracker ''A'' ''s'' Undefined))"
  by (simp add: removeSubscriptionAllModels_throws genericSubscriber_added)

text \<open>
  The loop of \<^verbatim>\<open>removeSubscriptionAllModels\<close> runs over the register's own array, not
  over a copy. Were \<^verbatim>\<open>this.findSBIIndex\<close> the lookup the class defines, each removal
  would shorten the array under the loop: of the two subscriptions of \<^verbatim>\<open>s\<close> below, the
  second is skipped and stays in both registers.
\<close>

lemma live_iteration_skips:
  "fst (removeSubscriptionAllModels_via (Some findSubscriptionIndices)
     (snd (addSubscription (snd (addSubscription testTracker ''A'' ''s'' Undefined)) ''A'' ''s'' (Str ''a1'')))
     ''s'') = None \<and>
   subscriptionsById (snd (removeSubscriptionAllModels_via (Some findSubscriptionIndices)
     (snd (addSubscription (snd (addSubscription testTracker ''A'' ''s'' Undefined)) ''A'' ''s'' (Str ''a1'')))
     ''s'')) ''s'' =
     Some [\<lparr>so_modelName = ''A'', so_generic = False, so_instanceId = Str ''a1''\<rparr>] \<and>
   resourceIds (snd (removeSubscriptionAllModels_via (Some findSubscriptionIndices)
     (snd (addSubscription (snd (addSubscription testTracker ''A'' ''s'' Undefined)) ''A'' ''s'' (Str ''a1'')))
     ''s'')) ''A'' ''a1'' = [''s'']"
proof -
  let ?g = "\<lparr>so_modelName = ''A'', so_generic = True, so_instanceId = Undefined\<rparr>"
  let ?i = "\<lparr>so_modelName = ''A'', so_generic = False, so_instanceId = Str ''a1''\<rparr>"
  let ?find = "Some findSubscriptionIndices"
  define t2 where
    "t2 = snd (addSubscription (snd (addSubscription testTracker ''A'' ''s'' Undefined)) ''A'' ''s'' (Str ''a1''))"
  define t3 where "t3 = snd (removeSubscription_via ?find t2 ''s'' ''A'' Undefined True)"
  have l2: "subscriptionsById t2 ''s'' = Some [?g, ?i]"
    by (simp add: t2_def run_defs)
  have s1: "fst (removeSubscription_via ?find t2 ''s'' ''A'' Undefined True) = None"
    by (simp add: t2_def run_defs removeSubscription_via_def splice1_def Let_def)
  have l3: "subscriptionsById t3 ''s'' = Some [?i]"
    by (simp add: t3_def t2_def run_defs removeSubscription_via_def splice1_def Let_def)
  have r3: "resourceIds t3 ''A'' ''a1'' = [''s'']"
    by (simp add: t3_def t2_def run_defs removeSubscription_via_def splice1_def Let_def resourceIds_def)
  have "removeSubscriptionAllModels_loop ?find t3 ''s'' (Suc 0) = (None, t3)"
    by (subst removeSubscriptionAllModels_loop.simps) (simp add: l3 orEmpty_def)
  then have "removeSubscriptionAllModels_loop ?find t2 ''s'' 0 = (None, t3)"
    by (subst removeSubscriptionAllModels_loop.simps) (simp add: l2 s1 orEmpty_def Let_def t3_def)
  then have "removeSubscriptionAllModels_via ?find t2 ''s'' = (None, t3)"
    by (simp add: removeSubscriptionAllModels_via_def l2)
  then show ?thesis
    using l3 r3 unfolding t2_def by simp
qed

section \<open>Notification: the list of subscription ids\<close>

text \<open>
  The part of the list the later revision builds through a Set holds no id twice.
\<close>

lemma set_foldl_setAdd: "set (foldl setAdd acc xs) = set acc \<union> set xs"
  by (induction xs arbitrary: acc) auto

lemma distinct_foldl_setAdd: "distinct acc \<Longrightarrow> distinct (foldl setAdd acc xs)"
  by (induction xs arbitrary: acc) auto

lemma distinct_newSet: "distinct (newSet xs)"
  by (simp add: newSet_def distinct_foldl_setAdd)

lemma set_newSet: "set (newSet xs) = set xs"
  by (simp add: newSet_def set_foldl_setAdd)

lemma notifySubscribers_without_depending_models:
  assumes "genericSubIds t modelName operation = Inr genericIds"
    and "specificSubIds t modelName operation instanceData = Inr specificIds"
    and "dependingModelMap t modelName = Some []"
  shows "notifySubscribers t modelName operation changedFields instanceData =
           (None,
            if newSet (genericIds @ specificIds) = [] then t
            else emit t (DataChanged operation modelName instanceData changedFields
                           (newSet (genericIds @ specificIds))))"
  using assms by (simp add: notifySubscribers_def cascadeAndEmit_def)

text \<open>
  Claim C3 says that the list of an emitted event holds each id at most once. The ids of
  the depending models are pushed after the Set was spread. Subscription \<^verbatim>\<open>s\<close> is on
  instance \<^verbatim>\<open>a1\<close> of \<^verbatim>\<open>A\<close> and on instance \<^verbatim>\<open>h1\<close> of \<^verbatim>\<open>AHasOne\<close>, whose \<^verbatim>\<open>AId\<close> is \<^verbatim>\<open>a1\<close>:
  an update of \<^verbatim>\<open>h1\<close> emits the list \<^verbatim>\<open>[ s, s ]\<close>.
\<close>

theorem cascade_repeats_subscriptionId:
  "notifySubscribers
     (snd (addSubscription (snd (addSubscription testTracker ''A'' ''s'' (Str ''a1'')))
        ''AHasOne'' ''s'' (Str ''h1'')))
     ''AHasOne'' Update None [(''id'', Str ''h1''), (''AId'', Str ''a1'')]
   = (None,
      emit (snd (addSubscription (snd (addSubscription testTracker ''A'' ''s'' (Str ''a1'')))
              ''AHasOne'' ''s'' (Str ''h1'')))
        (DataChanged Update ''AHasOne'' [(''id'', Str ''h1''), (''AId'', Str ''a1'')] None
           [''s'', ''s'']))"
  by (simp add: run_defs)

text \<open>
  Claim C8 says that an absent or null foreign key contributes no subscriber. The value
  is used as an object key all the same: \<^verbatim>\<open>null\<close> is the key \<^verbatim>\<open>'null'\<close>, an absent field
  the key \<^verbatim>\<open>'undefined'\<close>, and a subscription registered on \<^verbatim>\<open>A\<close> with the instance id
  \<^verbatim>\<open>null\<close> (or the string \<^verbatim>\<open>'undefined'\<close>) sits under that key. A create of an \<^verbatim>\<open>AHasOne\<close>
  whose \<^verbatim>\<open>AId\<close> is null then notifies it.
\<close>

theorem null_foreign_key_cascades:
  "fst (addSubscription testTracker ''A'' ''s'' Null) = None \<and>
   getProperty [(''id'', Str ''h1''), (''AId'', Null)] ''AId'' = Null \<and>
   cascade (snd (addSubscription testTracker ''A'' ''s'' Null))
     [(''id'', Str ''h1''), (''AId'', Null)] [] [''A''] = Inr [''s''] \<and>
   notifySubscribers (snd (addSubscription testTracker ''A'' ''s'' Null))
     ''AHasOne'' Create None [(''id'', Str ''h1''), (''AId'', Null)]
   = (None,
      emit (snd (addSubscription testTracker ''A'' ''s'' Null))
        (DataChanged Create ''AHasOne'' [(''id'', Str ''h1''), (''AId'', Null)] None [''s''])) \<and>
   getProperty [(''id'', Str ''h1'')] ''AId'' = Undefined \<and>
   cascade (snd (addSubscription testTracker ''A'' ''s'' (Str ''undefined'')))
     [(''id'', Str ''h1'')] [] [''A''] = Inr [''s'']"
  by (simp add: run_defs)

section \<open>The registry: the two registers\<close>

text \<open>
  As long as every instance id registered is absent or a string other than
  \<^verbatim>\<open>'generic'\<close>, the two registers agree after every call.
\<close>

lemma addSubscription_consistent:
  assumes "registered t" and "consistent t" and "plainId i"
  shows "consistent (snd (addSubscription t m s i))"
proof -
  from addSubscription_result[OF assms(1), of m s i]
  consider "snd (addSubscription t m s i) = t"
    | resources ev where "subscriptionsByResource t m = Some resources"
        "snd (addSubscription t m s i) =
              emit (t\<lparr>subscriptionsById := (subscriptionsById t)(s \<mapsto>
                         orEmpty (subscriptionsById t s) @
                           [\<lparr>so_modelName = m, so_generic = (i = Undefined), so_instanceId = i\<rparr>]),
                       subscriptionsByResource := (subscriptionsByResource t)(m \<mapsto>
                         resources((if i = Undefined then ''generic'' else toPropertyKey i) \<mapsto>
                           orEmpty (resources (if i = Undefined then ''generic'' else toPropertyKey i)) @ [s]))\<rparr>) ev"
    by blast
  then show ?thesis
  proof cases
    case 1
    then show ?thesis using assms(2) by simp
  next
    case 2
    show ?thesis
      unfolding 2(2) using assms(2,3) 2(1)
      unfolding consistent_def plainId_def resourceIds_def emit_def genericEntry_def specificEntry_def
      by (auto simp: orEmpty_def split: option.splits if_splits)
  qed
qed


lemma constructor_consistent:
  assumes "constructor models = Inr t"
  shows "consistent t"
proof -
  define d0 :: "string \<rightharpoonup> string list"
    where "d0 = fold (\<lambda>model dmm. dmm(model \<mapsto> [])) (map name models) Map.empty"
  define t0 where "t0 = \<lparr>modelNames = map name models, dependingModelMap = d0,
            subscriptionsByResource = Map.empty, subscriptionsById = Map.empty, emitted = []\<rparr>"
  have loop: "constructorLoop t0 models = Inr t"
    using assms by (simp add: constructor_def Let_def t0_def d0_def)
  note R = constructorLoop_registers[OF loop]
  have byId: "subscriptionsById t = Map.empty" using R by (simp add: t0_def)
  have "resourceIds t m k = []" for m k
    using R by (simp add: resourceIds_def orEmpty_def t0_def)
  then show ?thesis
    by (simp add: consistent_def byId orEmpty_def)
qed

lemma consistent_emit: "consistent (emit t e) = consistent t"
  by (simp add: consistent_def emit_def resourceIds_def)

lemma notifySubscribers_consistent:
  "consistent t \<Longrightarrow> consistent (snd (notifySubscribers t m operation cf d))"
  using notifySubscribers_frame[of t m operation cf d] by (auto simp: consistent_emit)

lemma addSubscriptions_consistent:
  "registered t \<Longrightarrow> consistent t \<Longrightarrow> list_all (\<lambda>i. plainId (inst_id i)) is \<Longrightarrow>
   consistent (snd (addSubscriptions t s is))"
  by (induction "is" arbitrary: t)
     (auto simp: Let_def addSubscription_registered addSubscription_consistent)

lemma addSubscriptionIfRequested_consistent:
  "registered t \<Longrightarrow> consistent t \<Longrightarrow> list_all (\<lambda>i. plainId (inst_id i)) (iterableInstances i) \<Longrightarrow>
   consistent (snd (addSubscriptionIfRequested t m i tc))"
  by (auto simp: addSubscriptionIfRequested_def addSubscriptions_consistent split: option.splits)

lemma plainlyReachable_reachable: "plainlyReachable t \<Longrightarrow> reachable t"
  by (induction rule: plainlyReachable.induct) (auto intro: reachable.intros)

lemma plainlyReachable_consistent: "plainlyReachable t \<Longrightarrow> consistent t"
proof (induction rule: plainlyReachable.induct)
  case (1 models t)
  then show ?case by (rule constructor_consistent)
next
  case (2 t instanceId modelName subscriptionId)
  then show ?case
    using addSubscription_consistent plainlyReachable_reachable reachable_registered by blast
next
  case (3 t subscriptionId modelName instanceId generic)
  then show ?case by (simp add: removeSubscription_throws)
next
  case (4 t subscriptionId)
  then show ?case by (simp add: removeSubscriptionAllModels_unchanged)
next
  case (5 t arg modelName trackChanges)
  then show ?case
    using addSubscriptionIfRequested_consistent plainlyReachable_reachable reachable_registered by blast
next
  case (6 t modelName operation changedFields instanceData)
  then show ?case by (simp add: notifySubscribers_consistent)
qed

text \<open>
  Claim C4 says that a subscription is in \<^verbatim>\<open>subscriptionsById\<close> exactly when its id is
  in \<^verbatim>\<open>subscriptionsByResource\<close> under the key of its resource. The generic list and the
  lists of the instances share one object, so the instance id \<^verbatim>\<open>'generic'\<close> is the key of
  the generic list: subscribing \<^verbatim>\<open>s\<close> to the instance \<^verbatim>\<open>'generic'\<close> of \<^verbatim>\<open>A\<close> puts \<^verbatim>\<open>s\<close> into
  the generic list of \<^verbatim>\<open>A\<close> while \<^verbatim>\<open>subscriptionsById\<close> holds no generic subscription of
  \<^verbatim>\<open>s\<close>, and a create of any \<^verbatim>\<open>A\<close> notifies \<^verbatim>\<open>s\<close>. The add path of a tracked read does the
  same for a record whose id is \<^verbatim>\<open>'generic'\<close>.
\<close>

theorem instanceId_generic_joins_generic_list:
  "fst (addSubscription testTracker ''A'' ''s'' (Str ''generic'')) = None \<and>
   subscriptionsById (snd (addSubscription testTracker ''A'' ''s'' (Str ''generic''))) ''s'' =
     Some [\<lparr>so_modelName = ''A'', so_generic = False, so_instanceId = Str ''generic''\<rparr>] \<and>
   resourceIds (snd (addSubscription testTracker ''A'' ''s'' (Str ''generic''))) ''A'' ''generic'' = [''s''] \<and>
   emitted (snd (notifySubscribers (snd (addSubscription testTracker ''A'' ''s'' (Str ''generic'')))
     ''A'' Create None [(''id'', Str ''a2'')])) =
     [SubscriptionsChanged ''s'' ''A'' (Str ''generic'') False,
      DataChanged Create ''A'' [(''id'', Str ''a2'')] None [''s'']] \<and>
   addSubscriptionIfRequested testTracker ''A''
     (OneInstance \<lparr>constructorName = ''A'', inst_id = Str ''generic''\<rparr>) (Some (Some ''s'')) =
   addSubscription testTracker ''A'' ''s'' (Str ''generic'')"
  by (simp add: run_defs resourceIds_def addSubscriptionIfRequested_def)

end
